theory Spec2Isabelle
  imports Complex_Main "HOL-Library.Log_Nat"
begin

section \<open>Go's float64\<close>

text \<open>
  The profiler computes percentages, histogram indices and correlations in \<open>float64\<close>.
  A finite binary64 value is kept as the rational number it denotes; the two zeros, the two
  infinities and NaN are separate constructors (\<open>Fin 0\<close> is \<open>+0\<close>, \<open>NZero\<close> is \<open>-0\<close>).
  Every arithmetic operation computes the exact rational result and rounds it to the nearest
  binary64 value, ties to even, with gradual underflow and overflow to infinity, each
  operation rounded on its own (no fused multiply-add).
\<close>

datatype f64 = Fin rat | NZero | PInf | NInf | NaN

definition pow2 :: "int \<Rightarrow> rat" where
  "pow2 e = (if 0 \<le> e then 2 ^ nat e else 1 / 2 ^ nat (- e))"

text \<open>\<open>ilog2 q\<close> is the exponent \<open>e\<close> with \<open>2^e \<le> q < 2^(e+1)\<close>, for \<open>q > 0\<close>.\<close>

definition ilog2 :: "rat \<Rightarrow> int" where
  "ilog2 q = (if 1 \<le> q then bitlen \<lfloor>q\<rfloor> - 1 else - bitlen (\<lceil>1 / q\<rceil> - 1))"

definition round_even :: "rat \<Rightarrow> int" where
  "round_even m = (let f = \<lfloor>m\<rfloor>; d = m - of_int f in
     if d < 1 / 2 then f else if 1 / 2 < d then f + 1 else if even f then f else f + 1)"

text \<open>The exponent of the last place: 53 significant bits, never below \<open>2^-1074\<close>.\<close>

definition ulp_exp :: "rat \<Rightarrow> int" where
  "ulp_exp q = max (ilog2 q - 52) (- 1074)"

definition round_mag :: "rat \<Rightarrow> rat" where
  "round_mag q = (let e = ulp_exp q in of_int (round_even (q / pow2 e)) * pow2 e)"

definition round_f64 :: "rat \<Rightarrow> f64" where
  "round_f64 q = (if q = 0 then Fin 0 else
     let r = round_mag \<bar>q\<bar> in
     if pow2 1024 \<le> r then (if q < 0 then NInf else PInf)
     else if r = 0 then (if q < 0 then NZero else Fin 0)
     else Fin (if q < 0 then - r else r))"

definition f64_sign :: "f64 \<Rightarrow> bool" where
  "f64_sign x = (case x of Fin q \<Rightarrow> q < 0 | NZero \<Rightarrow> True | NInf \<Rightarrow> True | _ \<Rightarrow> False)"

definition f64_val :: "f64 \<Rightarrow> rat" where
  "f64_val x = (case x of Fin q \<Rightarrow> q | _ \<Rightarrow> 0)"

definition is_zero :: "f64 \<Rightarrow> bool" where
  "is_zero x = (x = Fin 0 \<or> x = NZero)"

definition is_inf :: "f64 \<Rightarrow> bool" where
  "is_inf x = (x = PInf \<or> x = NInf)"

definition signed_zero :: "bool \<Rightarrow> f64" where
  "signed_zero s = (if s then NZero else Fin 0)"

definition signed_inf :: "bool \<Rightarrow> f64" where
  "signed_inf s = (if s then NInf else PInf)"

definition f64_neg :: "f64 \<Rightarrow> f64" where
  "f64_neg x = (case x of Fin q \<Rightarrow> (if q = 0 then NZero else Fin (- q)) | NZero \<Rightarrow> Fin 0
     | PInf \<Rightarrow> NInf | NInf \<Rightarrow> PInf | NaN \<Rightarrow> NaN)"

definition f64_add :: "f64 \<Rightarrow> f64 \<Rightarrow> f64" where
  "f64_add x y =
     (if x = NaN \<or> y = NaN then NaN
      else if is_inf x then (if is_inf y \<and> x \<noteq> y then NaN else x)
      else if is_inf y then y
      else if x = NZero then y
      else if y = NZero then x
      else round_f64 (f64_val x + f64_val y))"

definition f64_sub :: "f64 \<Rightarrow> f64 \<Rightarrow> f64" where
  "f64_sub x y = f64_add x (f64_neg y)"

definition f64_mul :: "f64 \<Rightarrow> f64 \<Rightarrow> f64" where
  "f64_mul x y =
     (if x = NaN \<or> y = NaN then NaN
      else if is_inf x \<or> is_inf y then
        (if is_zero x \<or> is_zero y then NaN else signed_inf (f64_sign x \<noteq> f64_sign y))
      else if is_zero x \<or> is_zero y then signed_zero (f64_sign x \<noteq> f64_sign y)
      else round_f64 (f64_val x * f64_val y))"

definition f64_div :: "f64 \<Rightarrow> f64 \<Rightarrow> f64" where
  "f64_div x y =
     (if x = NaN \<or> y = NaN then NaN
      else if is_inf x then (if is_inf y then NaN else signed_inf (f64_sign x \<noteq> f64_sign y))
      else if is_inf y then signed_zero (f64_sign x \<noteq> f64_sign y)
      else if is_zero y then (if is_zero x then NaN else signed_inf (f64_sign x \<noteq> f64_sign y))
      else if is_zero x then signed_zero (f64_sign x \<noteq> f64_sign y)
      else round_f64 (f64_val x / f64_val y))"

text \<open>Comparisons: NaN is unordered, the two zeros are equal.\<close>

definition f64_lt :: "f64 \<Rightarrow> f64 \<Rightarrow> bool" where
  "f64_lt x y =
     (if x = NaN \<or> y = NaN then False
      else if x = PInf \<or> y = NInf then False
      else if y = PInf \<or> x = NInf then True
      else f64_val x < f64_val y)"

definition f64_eq :: "f64 \<Rightarrow> f64 \<Rightarrow> bool" where
  "f64_eq x y =
     (if x = NaN \<or> y = NaN then False
      else if is_inf x \<or> is_inf y then x = y
      else f64_val x = f64_val y)"

definition f64_gt :: "f64 \<Rightarrow> f64 \<Rightarrow> bool" where
  "f64_gt x y = f64_lt y x"

definition f64_ge :: "f64 \<Rightarrow> f64 \<Rightarrow> bool" where
  "f64_ge x y = (f64_lt y x \<or> f64_eq x y)"

text \<open>\<open>float64(i)\<close> for an integer \<open>i\<close>: the nearest binary64 value.\<close>

definition f64_of_int :: "int \<Rightarrow> f64" where
  "f64_of_int i = round_f64 (of_int i)"

text \<open>
  \<open>int(x)\<close> for a float \<open>x\<close> truncates towards zero. When the truncated value is not an
  int64 (also for NaN and the infinities) the language leaves the result to the
  implementation; \<open>unrep\<close> is that choice.
\<close>

definition trunc :: "rat \<Rightarrow> int" where
  "trunc q = (if 0 \<le> q then \<lfloor>q\<rfloor> else \<lceil>q\<rceil>)"

definition fits_int64 :: "f64 \<Rightarrow> bool" where
  "fits_int64 x = (case x of Fin q \<Rightarrow> - (2 ^ 63) \<le> trunc q \<and> trunc q < 2 ^ 63 | NZero \<Rightarrow> True
     | _ \<Rightarrow> False)"

definition f64_to_int :: "(f64 \<Rightarrow> int) \<Rightarrow> f64 \<Rightarrow> int" where
  "f64_to_int unrep x = (if fits_int64 x then trunc (f64_val x) else unrep x)"

text \<open>The gc compiler on amd64 yields the smallest int64 for every such conversion.\<close>

definition unrep_amd64 :: "f64 \<Rightarrow> int" where
  "unrep_amd64 x = - (2 ^ 63)"

text \<open>On arm64 the conversion saturates and sends NaN to 0.\<close>

definition unrep_arm64 :: "f64 \<Rightarrow> int" where
  "unrep_arm64 x = (if x = NaN then 0 else if f64_sign x then - (2 ^ 63) else 2 ^ 63 - 1)"

text \<open>\<open>math.Abs\<close> and \<open>math.Min\<close>.\<close>

definition f64_abs :: "f64 \<Rightarrow> f64" where
  "f64_abs x = (case x of Fin q \<Rightarrow> Fin \<bar>q\<bar> | NZero \<Rightarrow> Fin 0 | NInf \<Rightarrow> PInf | _ \<Rightarrow> x)"

definition f64_Min :: "f64 \<Rightarrow> f64 \<Rightarrow> f64" where
  "f64_Min x y =
     (if x = NInf \<or> y = NInf then NInf
      else if x = NaN \<or> y = NaN then NaN
      else if is_zero x \<and> is_zero y then (if x = NZero then x else y)
      else if f64_lt x y then x else y)"

text \<open>
  \<open>math.Sqrt\<close> is correctly rounded. \<open>isqrt\<close> is the integer square root; the root of a
  positive binary64 value is never subnormal and never overflows.
\<close>

function isqrt :: "nat \<Rightarrow> nat" where
  "isqrt n = (if n < 2 then n else
     let s = 2 * isqrt (n div 4) in if (s + 1) * (s + 1) \<le> n then s + 1 else s)"
  by pat_completeness auto
termination
  by (relation "measure id") auto

definition sqrt_round :: "rat \<Rightarrow> rat" where
  "sqrt_round q = (let e = (ilog2 q) div 2 - 52; Q = q / (pow2 e * pow2 e);
       s = int (isqrt (nat \<lfloor>Q\<rfloor>)); h = of_int (s * s + s) + 1 / 4 in
     of_int (if Q < h then s else if h < Q then s + 1 else if even s then s else s + 1) * pow2 e)"

definition f64_sqrt :: "f64 \<Rightarrow> f64" where
  "f64_sqrt x = (case x of Fin q \<Rightarrow> (if q < 0 then NaN else if q = 0 then Fin 0 else Fin (sqrt_round q))
     | NZero \<Rightarrow> NZero | PInf \<Rightarrow> PInf | NInf \<Rightarrow> NaN | NaN \<Rightarrow> NaN)"


section \<open>Go's int\<close>

text \<open>\<open>int\<close> is a 64-bit two's complement integer: \<open>wrap64\<close> is what an arithmetic result becomes.\<close>

definition wrap64 :: "int \<Rightarrow> int" where
  "wrap64 i = (i + 2 ^ 63) mod 2 ^ 64 - 2 ^ 63"

section \<open>The data model\<close>

text \<open>
  A description built by \<open>fmt.Sprintf\<close> is kept as the format string with its arguments.
  Field names carry the initials of their struct where two structs share a name.
  \<open>ProcessingTime\<close> and \<open>CreatedAt\<close> are wall-clock readings and are left out.
\<close>

datatype fmt_arg = ArgInt int | ArgFloat f64

datatype description = Text string | Sprintf string "fmt_arg list"

record QualityIssue =
  Type :: string
  Description :: description
  Severity :: int

record HistogramBucket =
  LowerBound :: f64
  UpperBound :: f64
  hb_Count :: int

record ValueCount =
  Value :: string
  vc_Count :: int

record ColumnProfile =
  Name :: string
  DataType :: string
  Count :: int
  MissingCount :: int
  UniqueCount :: int
  Min :: "f64 option"
  Max :: "f64 option"
  Mean :: f64
  Median :: f64
  StdDev :: f64
  HistogramBuckets :: "HistogramBucket list"
  TopValues :: "ValueCount list"
  IsNumeric :: bool
  IsCategorical :: bool
  IsDateTime :: bool
  IsUnique :: bool
  col_QualityIssues :: "QualityIssue list"

record CorrelationPair =
  Column1 :: string
  Column2 :: string
  Correlation :: f64

record CorrelationMatrix =
  cm_Columns :: "string list"
  cm_Values :: "((string \<times> string) \<times> f64) list"
  TopPairs :: "CorrelationPair list"

text \<open>The map \<open>Columns\<close> is a list of name and column, one entry for each name.\<close>

record DatasetProfile =
  Filename :: string
  FileSize :: int
  Format :: string
  RowCount :: int
  ColumnCount :: int
  MissingCells :: int
  DuplicateRows :: int
  Columns :: "(string \<times> ColumnProfile) list"
  QualityIssues :: "QualityIssue list"
  QualityScore :: int
  CorrelationMatrix :: "CorrelationMatrix option"
  Recommendations :: "description list"

section \<open>CalculateQualityScore\<close>

definition missingPenalty :: "(f64 \<Rightarrow> int) \<Rightarrow> DatasetProfile \<Rightarrow> int" where
  "missingPenalty unrep profile =
     (let totalCells = wrap64 (RowCount profile * ColumnCount profile) in
      if 0 < totalCells then
        (let missingPercentage =
               f64_mul (f64_div (f64_of_int (MissingCells profile)) (f64_of_int totalCells)) (Fin 100) in
         if f64_gt missingPercentage (Fin 0) then
           (let penalty = f64_to_int unrep (f64_mul missingPercentage (Fin 3)) in
            if 30 < penalty then 30 else penalty)
         else 0)
      else 0)"

definition issuePenalty :: "DatasetProfile \<Rightarrow> int" where
  "issuePenalty profile =
     (let datasetPart = fold (\<lambda>issue acc. wrap64 (acc + wrap64 (Severity issue * 5)))
                             (QualityIssues profile) 0;
          total = fold (\<lambda>(name, col) acc.
                     fold (\<lambda>issue acc'. wrap64 (acc' + Severity issue)) (col_QualityIssues col) acc)
                   (Columns profile) datasetPart in
      if 40 < total then 40 else total)"

definition duplicatePenalty :: "(f64 \<Rightarrow> int) \<Rightarrow> DatasetProfile \<Rightarrow> int" where
  "duplicatePenalty unrep profile =
     (if 0 < RowCount profile then
        (let duplicatePercentage =
               f64_mul (f64_div (f64_of_int (DuplicateRows profile)) (f64_of_int (RowCount profile)))
                 (Fin 100) in
         if f64_gt duplicatePercentage (Fin 0) then
           (let penalty = f64_to_int unrep (f64_mul duplicatePercentage (Fin 2)) in
            if 15 < penalty then 15 else penalty)
         else 0)
      else 0)"

definition CalculateQualityScore :: "(f64 \<Rightarrow> int) \<Rightarrow> DatasetProfile \<Rightarrow> int" where
  "CalculateQualityScore unrep profile =
     (if RowCount profile = 0 \<or> ColumnCount profile = 0 then 0
      else
        (let score = wrap64 (100 - missingPenalty unrep profile);
             score = wrap64 (score - issuePenalty profile);
             score = wrap64 (score - duplicatePenalty unrep profile) in
         if score < 0 then 0 else score))"

section \<open>Profiles of the data model\<close>






text \<open>The profile of the repository's test \<open>missing_values_penalty\<close>.\<close>

definition score_example :: DatasetProfile where
  "score_example = \<lparr> Filename = ''t.csv'', FileSize = 0, Format = ''CSV'', RowCount = 1000,
     ColumnCount = 10, MissingCells = 1000, DuplicateRows = 0, Columns = [], QualityIssues = [],
     QualityScore = 0, CorrelationMatrix = None, Recommendations = [] \<rparr>"

section \<open>The standard library\<close>

text \<open>
  The parsers of \<open>strconv\<close> and \<open>time\<close> are not part of the repository: \<open>ParseInt L s\<close>
  says that \<open>strconv.ParseInt(s, 10, 64)\<close> succeeds, \<open>ParseFloat L s\<close> is the value of
  \<open>strconv.ParseFloat(s, 64)\<close> when it succeeds, \<open>ParseTime L layout s\<close> says that
  \<open>time.Parse(layout, s)\<close> succeeds, and \<open>conv L\<close> is the implementation's result of a
  float to int conversion that does not fit.
\<close>

record stdlib =
  ParseInt :: "string \<Rightarrow> bool"
  ParseFloat :: "string \<Rightarrow> f64 option"
  ParseTime :: "string \<Rightarrow> string \<Rightarrow> bool"
  conv :: "f64 \<Rightarrow> int"

definition RFC3339 :: string where
  "RFC3339 = ''2006-01-02T15:04:05Z07:00''"

section \<open>inferDataType\<close>

text \<open>The constant \<open>0.9\<close> as a float64.\<close>

definition c09 :: f64 where
  "c09 = Fin (8106479329266893 / 9007199254740992)"

text \<open>The loop over the sample: the counters are \<open>intCount\<close>, \<open>floatCount\<close>, \<open>dateCount\<close>.\<close>

fun tally :: "stdlib \<Rightarrow> string list \<Rightarrow> int \<times> int \<times> int \<Rightarrow> int \<times> int \<times> int" where
  "tally L [] counts = counts"
| "tally L (v # vs) (intCount, floatCount, dateCount) =
     (if ParseInt L v then tally L vs (intCount + 1, floatCount, dateCount)
      else if ParseFloat L v \<noteq> None then tally L vs (intCount, floatCount + 1, dateCount)
      else if ParseTime L RFC3339 v then tally L vs (intCount, floatCount, dateCount + 1)
      else if ParseTime L ''2006-01-02'' v then tally L vs (intCount, floatCount, dateCount + 1)
      else if ParseTime L ''01/02/2006'' v then tally L vs (intCount, floatCount, dateCount + 1)
      else tally L vs (intCount, floatCount, dateCount))"

definition inferDataType :: "stdlib \<Rightarrow> string list \<Rightarrow> string" where
  "inferDataType L values =
     (if length values = 0 then ''unknown''
      else
        (let sampleSize = f64_to_int (conv L) (f64_Min (f64_of_int (int (length values))) (Fin 100));
             (intCount, floatCount, dateCount) = tally L (take (nat sampleSize) values) (0, 0, 0);
             threshold = f64_mul (f64_of_int sampleSize) c09
         in if f64_ge (f64_of_int intCount) threshold then ''integer''
            else if f64_ge (f64_of_int (intCount + floatCount)) threshold then ''float''
            else if f64_ge (f64_of_int dateCount) threshold then ''datetime''
            else ''string''))"

text \<open>
  The type inferencer as the specification words it: the sample is the first
  \<open>min(len, 100)\<close> values, each value counts for the first class that accepts it, and the
  thresholds compare a count with nine tenths of the sample size.
\<close>

definition is_int_value :: "stdlib \<Rightarrow> string \<Rightarrow> bool" where
  "is_int_value L v = ParseInt L v"

definition is_float_value :: "stdlib \<Rightarrow> string \<Rightarrow> bool" where
  "is_float_value L v = (\<not> ParseInt L v \<and> ParseFloat L v \<noteq> None)"

definition is_date_value :: "stdlib \<Rightarrow> string \<Rightarrow> bool" where
  "is_date_value L v = (\<not> ParseInt L v \<and> ParseFloat L v = None
     \<and> (ParseTime L RFC3339 v \<or> ParseTime L ''2006-01-02'' v \<or> ParseTime L ''01/02/2006'' v))"

definition spec_inferDataType :: "stdlib \<Rightarrow> string list \<Rightarrow> string" where
  "spec_inferDataType L values =
     (if values = [] then ''unknown''
      else
        (let sample = take (min (length values) 100) values;
             sampleSize = (of_nat (length sample) :: rat);
             intCount = (of_nat (length (filter (is_int_value L) sample)) :: rat);
             floatCount = (of_nat (length (filter (is_float_value L) sample)) :: rat);
             dateCount = (of_nat (length (filter (is_date_value L) sample)) :: rat)
         in if 9 / 10 * sampleSize \<le> intCount then ''integer''
            else if 9 / 10 * sampleSize \<le> intCount + floatCount then ''float''
            else if 9 / 10 * sampleSize \<le> dateCount then ''datetime''
            else ''string''))"

text \<open>Tables for the proof: the threshold of every sample size and the small integers.\<close>

definition thr_ok :: "int \<Rightarrow> bool" where
  "thr_ok s = (case f64_mul (f64_of_int s) c09 of Fin q \<Rightarrow> \<lceil>q\<rceil> = (9 * s + 9) div 10 | _ \<Rightarrow> False)"

definition int_exact :: "int \<Rightarrow> bool" where
  "int_exact k = (f64_of_int k = Fin (of_int k))"

section \<open>Rounding is monotone\<close>

lemma pow2_powi: "pow2 e = 2 powi e"
  by (simp add: pow2_def power_int_def inverse_eq_divide power_one_over)

lemma pow2_pos: "0 < pow2 e"
  by (simp add: pow2_powi)

lemma pow2_add: "pow2 (a + b) = pow2 a * pow2 b"
  by (simp add: pow2_powi power_int_add)

lemma pow2_mono: "a \<le> b \<Longrightarrow> pow2 a \<le> pow2 b"
  by (simp add: pow2_powi power_int_increasing)

lemma pow2_nat: "0 \<le> e \<Longrightarrow> pow2 e = 2 ^ nat e"
  by (simp add: pow2_def)

lemma bitlen_ge1: "1 \<le> x \<Longrightarrow> 1 \<le> bitlen x"
  by (simp add: bitlen_alt_def)

lemma ilog2_lower: "0 < q \<Longrightarrow> pow2 (ilog2 q) \<le> q"
proof (cases "1 \<le> q")
  case True
  assume "0 < q"
  let ?x = "\<lfloor>q\<rfloor>"
  have x: "1 \<le> ?x" using True by simp
  then have b: "1 \<le> bitlen ?x" by (rule bitlen_ge1)
  have "(2::int) ^ nat (bitlen ?x - 1) \<le> ?x" using bitlen_bounds[of ?x] x by simp
  then have "(of_int ((2::int) ^ nat (bitlen ?x - 1)) :: rat) \<le> of_int ?x" by (simp only: of_int_le_iff)
  then have "(2::rat) ^ nat (bitlen ?x - 1) \<le> of_int ?x" by simp
  also have "\<dots> \<le> q" by simp
  finally show ?thesis using True b by (simp add: ilog2_def pow2_def)
next
  case False
  assume q: "0 < q"
  let ?c = "\<lceil>1 / q\<rceil>"
  let ?x = "?c - 1"
  have "1 < 1 / q" using False q by simp
  then have c: "2 \<le> ?c" by (simp add: le_ceiling_iff)
  then have x: "1 \<le> ?x" by simp
  then have b: "1 \<le> bitlen ?x" by (rule bitlen_ge1)
  have "?x < 2 ^ nat (bitlen ?x)" using bitlen_bounds[of ?x] x by simp
  then have "?c \<le> 2 ^ nat (bitlen ?x)" by simp
  then have "(of_int ?c :: rat) \<le> of_int (2 ^ nat (bitlen ?x))" by (simp only: of_int_le_iff)
  then have "(of_int ?c :: rat) \<le> 2 ^ nat (bitlen ?x)" by simp
  moreover have "1 / q \<le> of_int ?c" by simp
  ultimately have "1 / q \<le> 2 ^ nat (bitlen ?x)" by linarith
  then have "1 \<le> 2 ^ nat (bitlen ?x) * q" using q by (simp add: field_simps)
  then have "1 / 2 ^ nat (bitlen ?x) \<le> q" by (simp add: field_simps)
  then show ?thesis using False b by (simp add: ilog2_def pow2_def)
qed

lemma ilog2_upper: "0 < q \<Longrightarrow> q < pow2 (ilog2 q + 1)"
proof (cases "1 \<le> q")
  case True
  assume "0 < q"
  let ?x = "\<lfloor>q\<rfloor>"
  have x: "1 \<le> ?x" using True by simp
  then have b: "1 \<le> bitlen ?x" by (rule bitlen_ge1)
  have "?x < 2 ^ nat (bitlen ?x)" using bitlen_bounds[of ?x] x by simp
  then have "?x + 1 \<le> 2 ^ nat (bitlen ?x)" by simp
  then have "(of_int (?x + 1) :: rat) \<le> of_int (2 ^ nat (bitlen ?x))" by (simp only: of_int_le_iff)
  then have "(of_int ?x :: rat) + 1 \<le> 2 ^ nat (bitlen ?x)" by simp
  moreover have "q < of_int ?x + 1" by linarith
  ultimately have "q < 2 ^ nat (bitlen ?x)" by linarith
  then show ?thesis using True b by (simp add: ilog2_def pow2_def)
next
  case False
  assume q: "0 < q"
  let ?c = "\<lceil>1 / q\<rceil>"
  let ?x = "?c - 1"
  have "1 < 1 / q" using False q by simp
  then have c: "2 \<le> ?c" by (simp add: le_ceiling_iff)
  then have x: "1 \<le> ?x" by simp
  then have b: "1 \<le> bitlen ?x" by (rule bitlen_ge1)
  have "(2::int) ^ nat (bitlen ?x - 1) \<le> ?x" using bitlen_bounds[of ?x] x by simp
  then have "(of_int ((2::int) ^ nat (bitlen ?x - 1)) :: rat) \<le> of_int ?x" by (simp only: of_int_le_iff)
  then have "(2::rat) ^ nat (bitlen ?x - 1) \<le> of_int ?c - 1" by simp
  moreover have "of_int ?c - 1 < 1 / q" by linarith
  ultimately have "(2::rat) ^ nat (bitlen ?x - 1) < 1 / q" by linarith
  then have "2 ^ nat (bitlen ?x - 1) * q < 1" using q by (simp add: field_simps)
  then have lt: "q < 1 / 2 ^ nat (bitlen ?x - 1)" by (simp add: field_simps)
  have "ilog2 q + 1 = - (bitlen ?x - 1)" using False by (simp add: ilog2_def)
  moreover have "pow2 (- (bitlen ?x - 1)) = 1 / 2 ^ nat (bitlen ?x - 1)"
    using b by (cases "bitlen ?x = 1") (simp_all add: pow2_def)
  ultimately show ?thesis using lt by simp
qed

lemma round_even_floor: "\<lfloor>m\<rfloor> \<le> round_even m \<and> round_even m \<le> \<lfloor>m\<rfloor> + 1"
  by (simp add: round_even_def Let_def)

lemma round_even_mono: "a \<le> b \<Longrightarrow> round_even a \<le> round_even b"
proof -
  assume ab: "a \<le> b"
  then have fl: "\<lfloor>a\<rfloor> \<le> \<lfloor>b\<rfloor>" by (rule floor_mono)
  show ?thesis
  proof (cases "\<lfloor>a\<rfloor> = \<lfloor>b\<rfloor>")
    case True
    then have "a - of_int \<lfloor>a\<rfloor> \<le> b - of_int \<lfloor>b\<rfloor>" using ab by simp
    then show ?thesis using True by (auto simp add: round_even_def Let_def)
  next
    case False
    then have "\<lfloor>a\<rfloor> + 1 \<le> \<lfloor>b\<rfloor>" using fl by simp
    then show ?thesis using round_even_floor[of a] round_even_floor[of b] by linarith
  qed
qed

lemma round_even_of_int: "round_even (of_int k) = k"
  by (simp add: round_even_def)

lemma round_even_lower: "of_int (round_even m) \<ge> m - 1 / 2"
  unfolding round_even_def Let_def by (auto; linarith)

lemma round_even_upper: "of_int (round_even m) \<le> m + 1 / 2"
  unfolding round_even_def Let_def by (auto; linarith)

lemma pow2_less_cancel: "pow2 a < pow2 b \<Longrightarrow> a < b"
  using pow2_mono[of b a] by (cases "a < b") auto

lemma ilog2_mono: "0 < a \<Longrightarrow> a \<le> b \<Longrightarrow> ilog2 a \<le> ilog2 b"
proof -
  assume a: "0 < a" and ab: "a \<le> b"
  have "pow2 (ilog2 a) \<le> a" using a by (rule ilog2_lower)
  also have "a \<le> b" by (rule ab)
  also have "b < pow2 (ilog2 b + 1)" using a ab by (intro ilog2_upper) simp
  finally have "ilog2 a < ilog2 b + 1" by (rule pow2_less_cancel)
  then show ?thesis by simp
qed


lemma round_mag_mono: "0 < a \<Longrightarrow> a \<le> b \<Longrightarrow> round_mag a \<le> round_mag b"
proof -
  assume a: "0 < a" and ab: "a \<le> b"
  then have b: "0 < b" by simp
  let ?ea = "ulp_exp a" and ?eb = "ulp_exp b"
  have e: "?ea \<le> ?eb" using ilog2_mono[OF a ab] unfolding ulp_exp_def by linarith
  show ?thesis
  proof (cases "?ea = ?eb")
    case True
    have "a / pow2 ?eb \<le> b / pow2 ?eb" using ab pow2_pos[of ?eb] by (simp add: divide_right_mono)
    then have "round_even (a / pow2 ?eb) \<le> round_even (b / pow2 ?eb)" by (rule round_even_mono)
    then have "(of_int (round_even (a / pow2 ?eb)) :: rat) \<le> of_int (round_even (b / pow2 ?eb))"
      by simp
    then show ?thesis using True pow2_pos[of ?eb]
      by (simp add: round_mag_def Let_def mult_right_mono)
  next
    case False
    then have lt: "?ea < ?eb" using e by simp
    then have eb: "?eb = ilog2 b - 52" unfolding ulp_exp_def by linarith
    have "pow2 (?eb + 52) \<le> b" using ilog2_lower[OF b] eb by simp
    then have "pow2 52 * pow2 ?eb \<le> b" by (simp add: pow2_add mult.commute)
    then have "pow2 52 \<le> b / pow2 ?eb" using pow2_pos[of ?eb] by (simp add: pos_le_divide_eq)
    then have "(of_int (2 ^ 52) :: rat) \<le> b / pow2 ?eb" by (simp add: pow2_def)
    then have "round_even (of_int (2 ^ 52)) \<le> round_even (b / pow2 ?eb)" by (rule round_even_mono)
    then have "(2::int) ^ 52 \<le> round_even (b / pow2 ?eb)" by (simp only: round_even_of_int)
    then have "(of_int (2 ^ 52) :: rat) \<le> of_int (round_even (b / pow2 ?eb))"
      by (simp only: of_int_le_iff)
    then have "pow2 52 \<le> of_int (round_even (b / pow2 ?eb))" by (simp add: pow2_def)
    then have "pow2 52 * pow2 ?eb \<le> of_int (round_even (b / pow2 ?eb)) * pow2 ?eb"
      using pow2_pos[of ?eb] by (simp add: mult_right_mono)
    then have B: "pow2 (?eb + 52) \<le> round_mag b"
      by (simp add: round_mag_def Let_def pow2_add mult.commute)
    have "ilog2 a + 1 \<le> ?ea + 53" unfolding ulp_exp_def by linarith
    then have "pow2 (ilog2 a + 1) \<le> pow2 (?ea + 53)" by (rule pow2_mono)
    then have "a \<le> pow2 (?ea + 53)" using ilog2_upper[OF a] by linarith
    then have "a \<le> pow2 53 * pow2 ?ea" by (simp add: pow2_add mult.commute)
    then have "a / pow2 ?ea \<le> pow2 53" using pow2_pos[of ?ea] by (simp add: pos_divide_le_eq)
    then have "a / pow2 ?ea \<le> of_int (2 ^ 53)" by (simp add: pow2_def)
    then have "round_even (a / pow2 ?ea) \<le> round_even (of_int (2 ^ 53))" by (rule round_even_mono)
    then have "round_even (a / pow2 ?ea) \<le> 2 ^ 53" by (simp only: round_even_of_int)
    then have "(of_int (round_even (a / pow2 ?ea)) :: rat) \<le> of_int (2 ^ 53)"
      by (simp only: of_int_le_iff)
    then have "of_int (round_even (a / pow2 ?ea)) \<le> pow2 53" by (simp add: pow2_def)
    then have "of_int (round_even (a / pow2 ?ea)) * pow2 ?ea \<le> pow2 53 * pow2 ?ea"
      using pow2_pos[of ?ea] by (simp add: mult_right_mono)
    then have A: "round_mag a \<le> pow2 (?ea + 53)"
      by (simp add: round_mag_def Let_def pow2_add mult.commute)
    have "?ea + 53 \<le> ?eb + 52" using lt by simp
    then have "pow2 (?ea + 53) \<le> pow2 (?eb + 52)" by (rule pow2_mono)
    then show ?thesis using A B by linarith
  qed
qed



lemma floor_rat_numeral_div: "\<lfloor>(numeral a :: rat) / numeral b\<rfloor> = numeral a div numeral b"
  using floor_divide_of_int_eq[of "numeral a" "numeral b", where ?'a = rat] by simp

lemma ceiling_rat_numeral_div: "\<lceil>(numeral a :: rat) / numeral b\<rceil> = - ((- numeral a) div numeral b)"
  using floor_divide_of_int_eq[of "- numeral a" "numeral b", where ?'a = rat]
  by (simp add: ceiling_def)

lemma floor_rat_one_div: "\<lfloor>(1 :: rat) / numeral b\<rfloor> = 1 div numeral b"
  using floor_divide_of_int_eq[of 1 "numeral b", where ?'a = rat] by simp

lemma ceiling_rat_one_div: "\<lceil>(1 :: rat) / numeral b\<rceil> = - ((- 1) div numeral b)"
  using floor_divide_of_int_eq[of "- 1" "numeral b", where ?'a = rat]
  by (simp add: ceiling_def)

lemma bitlen_One: "bitlen 1 = 1"
  by (simp add: bitlen_def compute_floorlog)

lemma bitlen_Bit0: "bitlen (numeral (Num.Bit0 n)) = 1 + bitlen (numeral n)"
  by (subst bitlen_def, subst compute_floorlog) (simp add: bitlen_def)

lemma bitlen_Bit1: "bitlen (numeral (Num.Bit1 n)) = 1 + bitlen (numeral n)"
  by (subst bitlen_def, subst compute_floorlog) (simp add: bitlen_def)

lemmas round_eval = round_mag_def ulp_exp_def ilog2_def pow2_def round_even_def Let_def
  floor_rat_numeral_div ceiling_rat_numeral_div floor_rat_one_div ceiling_rat_one_div
  bitlen_One bitlen_Bit0 bitlen_Bit1

lemmas f64_eval = round_f64_def round_eval
  f64_mul_def f64_add_def f64_div_def f64_sub_def f64_neg_def f64_val_def f64_sign_def
  is_zero_def is_inf_def signed_zero_def signed_inf_def f64_of_int_def
  f64_lt_def f64_gt_def f64_eq_def f64_ge_def f64_to_int_def fits_int64_def trunc_def

lemma round_mag_100: "round_mag 100 = 100" by (simp add: round_eval)






section \<open>The quality score\<close>
















lemma score_example_value: "CalculateQualityScore unrep_amd64 score_example = 70"
  by (simp add: CalculateQualityScore_def missingPenalty_def issuePenalty_def duplicatePenalty_def
      score_example_def wrap64_def f64_eval)

section \<open>The type inferencer meets its specification\<close>

lemma thr_ok_1: "thr_ok 1"
  by (simp add: thr_ok_def c09_def f64_eval)

lemma thr_table_1: "list_all thr_ok [2..25]"
  by (simp add: thr_ok_def c09_def f64_eval upto_rec_numeral)

lemma thr_table_2: "list_all thr_ok [26..50]"
  by (simp add: thr_ok_def c09_def f64_eval upto_rec_numeral)

lemma thr_table_3: "list_all thr_ok [51..75]"
  by (simp add: thr_ok_def c09_def f64_eval upto_rec_numeral)

lemma thr_table_4: "list_all thr_ok [76..100]"
  by (simp add: thr_ok_def c09_def f64_eval upto_rec_numeral)

lemma int_exact_0: "int_exact 0"
  by (simp add: int_exact_def f64_eval)

lemma int_exact_1: "int_exact 1"
  by (simp add: int_exact_def f64_eval)

lemma int_exact_table: "list_all int_exact [2..100]"
  by (simp add: int_exact_def f64_eval upto_rec_numeral)

lemma thr_ok_all: "1 \<le> s \<Longrightarrow> s \<le> 100 \<Longrightarrow> thr_ok s"
proof -
  assume s: "1 \<le> s" "s \<le> 100"
  have "s = 1 \<or> s \<in> set [2..25] \<or> s \<in> set [26..50] \<or> s \<in> set [51..75] \<or> s \<in> set [76..100]"
    using s unfolding set_upto atLeastAtMost_iff by linarith
  then show ?thesis
    using thr_ok_1 thr_table_1 thr_table_2 thr_table_3 thr_table_4 unfolding list_all_iff by blast
qed

lemma int_exact_all: "0 \<le> k \<Longrightarrow> k \<le> 100 \<Longrightarrow> f64_of_int k = Fin (of_int k)"
proof -
  assume k: "0 \<le> k" "k \<le> 100"
  have "k = 0 \<or> k = 1 \<or> k \<in> set [2..100]"
    using k unfolding set_upto atLeastAtMost_iff by linarith
  then have "int_exact k"
    using int_exact_0 int_exact_1 int_exact_table unfolding list_all_iff by blast
  then show ?thesis by (simp add: int_exact_def)
qed

lemma ceil_div_threshold: "((9 * s + 9) div 10 \<le> k) = (9 * s \<le> 10 * (k::int))"
  by linarith

lemma threshold_iff:
  assumes "1 \<le> s" "s \<le> 100" "0 \<le> k" "k \<le> s"
  shows "f64_ge (f64_of_int k) (f64_mul (f64_of_int s) c09) \<longleftrightarrow> 9 * s \<le> 10 * k"
proof -
  obtain q where q: "f64_mul (f64_of_int s) c09 = Fin q" "\<lceil>q\<rceil> = (9 * s + 9) div 10"
    using thr_ok_all[OF assms(1,2)] by (auto simp add: thr_ok_def split: f64.splits)
  have k: "f64_of_int k = Fin (of_int k)" using assms by (intro int_exact_all) simp_all
  have "f64_ge (Fin (of_int k)) (Fin q) \<longleftrightarrow> q \<le> of_int k"
    by (auto simp add: f64_ge_def f64_lt_def f64_eq_def f64_val_def is_inf_def)
  also have "\<dots> \<longleftrightarrow> \<lceil>q\<rceil> \<le> k" by (simp add: ceiling_le_iff)
  also have "\<dots> \<longleftrightarrow> 9 * s \<le> 10 * k" by (simp only: q(2) ceil_div_threshold)
  finally show ?thesis by (simp add: q k)
qed

lemma tally_counts:
  "tally L xs (a, b, c) =
     (a + int (length (filter (is_int_value L) xs)),
      b + int (length (filter (is_float_value L) xs)),
      c + int (length (filter (is_date_value L) xs)))"
  by (induction xs arbitrary: a b c)
     (auto simp add: is_int_value_def is_float_value_def is_date_value_def)

lemma int_float_disjoint:
  "length (filter (is_int_value L) xs) + length (filter (is_float_value L) xs) \<le> length xs"
  by (induction xs) (auto simp add: is_int_value_def is_float_value_def)

lemma f64_of_int_large:
  assumes "100 \<le> n"
  shows "f64_of_int n = PInf \<or> (\<exists>r. f64_of_int n = Fin r \<and> 100 \<le> r)"
proof -
  have "round_mag 100 \<le> round_mag (of_int n)" using assms by (intro round_mag_mono) simp_all
  then have "100 \<le> round_mag (of_int n)" by (simp add: round_mag_100)
  then show ?thesis using assms by (auto simp add: f64_of_int_def round_f64_def Let_def)
qed

lemma sampleSize_min:
  assumes "values \<noteq> []"
  shows "f64_to_int cv (f64_Min (f64_of_int (int (length values))) (Fin 100))
         = int (min (length values) 100)"
proof (cases "length values \<le> 100")
  case True
  have n: "1 \<le> int (length values)" using assms by (cases "values") simp_all
  have "f64_of_int (int (length values)) = Fin (of_int (int (length values)))"
    using True by (intro int_exact_all) simp_all
  then show ?thesis using True n
    by (auto simp add: f64_Min_def is_zero_def f64_lt_def f64_val_def f64_to_int_def fits_int64_def
        trunc_def min_def)
next
  case False
  then have "100 \<le> int (length values)" by simp
  then have "f64_of_int (int (length values)) = PInf
      \<or> (\<exists>r. f64_of_int (int (length values)) = Fin r \<and> 100 \<le> r)"
    by (rule f64_of_int_large)
  then have "f64_Min (f64_of_int (int (length values))) (Fin 100) = Fin 100"
    by (auto simp add: f64_Min_def is_zero_def f64_lt_def f64_val_def)
  then show ?thesis using False
    by (simp add: f64_to_int_def fits_int64_def trunc_def f64_val_def min_def)
qed

lemma rat_threshold: "(9 / 10 * (of_nat s :: rat) \<le> of_nat k) \<longleftrightarrow> (9 * int s \<le> 10 * int k)"
proof -
  have "(9 / 10 * (of_nat s :: rat) \<le> of_nat k) \<longleftrightarrow> ((of_int (9 * int s) :: rat) \<le> of_int (10 * int k))"
    by (simp add: field_simps)
  then show ?thesis by (simp only: of_int_le_iff)
qed

lemma inferDataType_spec: "inferDataType L values = spec_inferDataType L values"
proof (cases "values = []")
  case True
  then show ?thesis by (simp add: inferDataType_def spec_inferDataType_def)
next
  case False
  let ?s = "min (length values) 100"
  let ?sample = "take ?s values"
  let ?ic = "length (filter (is_int_value L) ?sample)"
  let ?fc = "length (filter (is_float_value L) ?sample)"
  let ?dc = "length (filter (is_date_value L) ?sample)"
  have len: "length ?sample = ?s" by simp
  have s1: "1 \<le> int ?s" using False by (cases "values") simp_all
  have s2: "int ?s \<le> 100" by simp
  have ic: "int ?ic \<le> int ?s" using length_filter_le[of "is_int_value L" ?sample] by simp
  have dc: "int ?dc \<le> int ?s" using length_filter_le[of "is_date_value L" ?sample] by simp
  have ifn: "?ic + ?fc \<le> ?s" using int_float_disjoint[of L ?sample] by (simp only: len)
  have ifc: "int ?ic + int ?fc \<le> int ?s" using ifn by linarith
  have t1: "f64_ge (f64_of_int (int ?ic)) (f64_mul (f64_of_int (int ?s)) c09) \<longleftrightarrow> 9 * int ?s \<le> 10 * int ?ic"
    using s1 s2 ic by (intro threshold_iff) simp_all
  have t2: "f64_ge (f64_of_int (int ?ic + int ?fc)) (f64_mul (f64_of_int (int ?s)) c09)
            \<longleftrightarrow> 9 * int ?s \<le> 10 * (int ?ic + int ?fc)"
    using s1 s2 ifc by (intro threshold_iff) simp_all
  have t3: "f64_ge (f64_of_int (int ?dc)) (f64_mul (f64_of_int (int ?s)) c09) \<longleftrightarrow> 9 * int ?s \<le> 10 * int ?dc"
    using s1 s2 dc by (intro threshold_iff) simp_all
  have r1: "(9 / 10 * (of_nat ?s :: rat) \<le> of_nat ?ic) \<longleftrightarrow> 9 * int ?s \<le> 10 * int ?ic"
    by (rule rat_threshold)
  have r2: "(9 / 10 * (of_nat ?s :: rat) \<le> of_nat ?ic + of_nat ?fc) \<longleftrightarrow> 9 * int ?s \<le> 10 * (int ?ic + int ?fc)"
    using rat_threshold[of ?s "?ic + ?fc"] by simp
  have r3: "(9 / 10 * (of_nat ?s :: rat) \<le> of_nat ?dc) \<longleftrightarrow> 9 * int ?s \<le> 10 * int ?dc"
    by (rule rat_threshold)
  have code: "inferDataType L values =
      (if 9 * int ?s \<le> 10 * int ?ic then ''integer''
       else if 9 * int ?s \<le> 10 * (int ?ic + int ?fc) then ''float''
       else if 9 * int ?s \<le> 10 * int ?dc then ''datetime'' else ''string'')"
    using False t1 t2 t3
    by (simp add: inferDataType_def sampleSize_min[OF False] tally_counts Let_def)
  have spec: "spec_inferDataType L values =
      (if 9 * int ?s \<le> 10 * int ?ic then ''integer''
       else if 9 * int ?s \<le> 10 * (int ?ic + int ?fc) then ''float''
       else if 9 * int ?s \<le> 10 * int ?dc then ''datetime'' else ''string'')"
    using False r1 r2 r3 len
    by (simp add: spec_inferDataType_def Let_def)
  show ?thesis by (simp only: code spec)
qed

lemma spec_inferDataType_take: "spec_inferDataType L (take 100 values) = spec_inferDataType L values"
  by (cases "values = []") (simp_all add: spec_inferDataType_def Let_def min_def)

text \<open>
  C2: inferDataType returns \<open>unknown\<close> for the empty sequence and otherwise decides on the
  first \<open>min(len, 100)\<close> values, integer before float before datetime before string, each
  on nine tenths of the sample; the float64 thresholds of the code agree with the exact
  ones, and values after the first 100 do not change the result.
\<close>

theorem inferDataType_correct:
  "inferDataType L values = spec_inferDataType L values
   \<and> inferDataType L values = inferDataType L (take 100 values)"
  using inferDataType_spec[of L "values"] inferDataType_spec[of L "take 100 values"]
    spec_inferDataType_take[of L "values"]
  by simp

end
